theory Spec2Isabelle
  imports Complex_Main "HOL-Library.Char_ord" "HOL-Library.List_Lexorder"
    "HOL-Library.Product_Lexorder"
begin

section \<open>Data model\<close>

text \<open>
  The program is one Streamlit script, \<^verbatim>\<open>streamlitapp4.py\<close>, that cleans a
  pandas DataFrame read from an Excel sheet. The embedding keeps what the script
  relies on:
  \<^item> a float64 value is an exact rational, an infinity or NaN. Rounding error of
    binary floating point is not modelled; the comparison rules of IEEE 754 (every
    comparison with NaN is false) are;
  \<^item> a cell holds a float64 value or a Python string; an empty Excel cell is NaN;
  \<^item> a column has a dtype: numeric (int64, float64) or object;
  \<^item> a DataFrame is its list of column names, the dtype of each column, and its
    rows in order, each with its index label. A row is a function from column names
    to cells; its value at a name that is not a column of the frame means nothing.
    The labels of a frame read from a sheet are 0, 1, 2, ..., and the stages that drop
    rows keep the labels of the remaining ones;
  \<^item> a character is a byte, so \<^verbatim>\<open>\d\<close> is taken on the ASCII digits.
\<close>

datatype float64 = Fin rat | PInf | NInf | NaN

datatype cell = Flt float64 | Str string

datatype dtype = Number | Object

type_synonym row = "string \<Rightarrow> cell"

record dataframe =
  columns :: "string list"
  dtypes :: "string \<Rightarrow> dtype"
  rows :: "(nat \<times> row) list"

text \<open>
  Every exception the script can raise ends the run in the handler of line 155, except
  the one of \<^verbatim>\<open>st.stop()\<close>. The constructors name them by the spec's taxonomy where
  it has a name and by Python's class otherwise; \<open>ImputerError\<close> is for an exception
  of scikit-learn's imputer.
\<close>

datatype error =
    SchemaError "string list"
  | ParseError
  | AttributeError
  | TypeError
  | ValueError
  | KeyError "string list"
  | ImputerError

subsection \<open>Comparisons of float64 values\<close>

fun fle :: "float64 \<Rightarrow> float64 \<Rightarrow> bool" where
  "fle NaN _ = False"
| "fle _ NaN = False"
| "fle NInf _ = True"
| "fle _ PInf = True"
| "fle (Fin a) (Fin b) = (a \<le> b)"
| "fle _ _ = False"

fun flt :: "float64 \<Rightarrow> float64 \<Rightarrow> bool" where
  "flt NaN _ = False"
| "flt _ NaN = False"
| "flt PInf _ = False"
| "flt _ NInf = False"
| "flt (Fin a) (Fin b) = (a < b)"
| "flt _ _ = True"

definition isnull :: "cell \<Rightarrow> bool" where
  "isnull c = (c = Flt NaN)"

definition is_str :: "cell \<Rightarrow> bool" where
  "is_str c = (case c of Str _ \<Rightarrow> True | Flt _ \<Rightarrow> False)"

text \<open>The float64 value of a cell of a numeric column (such a column has no string).\<close>

definition float_of :: "cell \<Rightarrow> float64" where
  "float_of c = (case c of Flt v \<Rightarrow> v | Str _ \<Rightarrow> NaN)"

subsection \<open>Column assignment and positional relabelling\<close>

text \<open>
  \<^verbatim>\<open>df[c] = values\<close>: the values go to the rows in order; a new name is appended to
  the columns, an old one keeps its place. The caller gives the dtype of the result.
\<close>

definition assign :: "string \<Rightarrow> dtype \<Rightarrow> cell list \<Rightarrow> dataframe \<Rightarrow> dataframe" where
  "assign c t vs df =
     df\<lparr>columns := (if c \<in> set (columns df) then columns df else columns df @ [c]),
        dtypes := (dtypes df)(c := t),
        rows := map (\<lambda>((i, r), v). (i, r(c := v))) (zip (rows df) vs)\<rparr>"

text \<open>\<^verbatim>\<open>reset_index(drop=True)\<close>: the labels become 0, 1, 2, ...\<close>

definition reset_index :: "dataframe \<Rightarrow> dataframe" where
  "reset_index df = df\<lparr>rows := zip [0 ..< length (rows df)] (map snd (rows df))\<rparr>"

text \<open>\<^verbatim>\<open>df.loc[labels]\<close>: for each label in turn, the rows that carry it.\<close>

definition loc :: "dataframe \<Rightarrow> nat list \<Rightarrow> dataframe" where
  "loc df labels = df\<lparr>rows := concat (map (\<lambda>l. filter (\<lambda>(i, r). i = l) (rows df)) labels)\<rparr>"

section \<open>Schema Validator (lines 31-36)\<close>

definition critical_columns :: "string list" where
  "critical_columns = [''pH'', ''TC %'', ''TN %'', ''Olsen P'', ''AMN'', ''BD'']"

definition missing_critical :: "dataframe \<Rightarrow> string list" where
  "missing_critical df = filter (\<lambda>col. col \<notin> set (columns df)) critical_columns"

text \<open>
  \<^verbatim>\<open>st.error(...)\<close> shows the list, \<^verbatim>\<open>st.stop()\<close> ends the script run.
\<close>

definition validate :: "dataframe \<Rightarrow> error + dataframe" where
  "validate df = (if missing_critical df \<noteq> [] then Inl (SchemaError (missing_critical df))
                  else Inr df)"

section \<open>Row Filter (lines 38-51)\<close>

text \<open>
  \<^verbatim>\<open>df.dropna(subset=..., how='any')\<close>: a row goes when any cell of the subset is
  null; pandas raises KeyError for a name of the subset that is not a column.
\<close>

definition has_null :: "string list \<Rightarrow> row \<Rightarrow> bool" where
  "has_null subs r = (\<exists>c \<in> set subs. isnull (r c))"

definition dropna :: "string list \<Rightarrow> dataframe \<Rightarrow> error + dataframe" where
  "dropna subs df =
     (let absent = filter (\<lambda>c. c \<notin> set (columns df)) subs in
      if absent \<noteq> [] then Inl (KeyError absent)
      else Inr (df\<lparr>rows := filter (\<lambda>(i, r). \<not> has_null subs r) (rows df)\<rparr>))"

text \<open>
  \<^verbatim>\<open>df.drop_duplicates()\<close>: a row goes when an earlier row has the same cells in
  every column. \<open>seen\<close> holds the rows kept so far.
\<close>

fun drop_dups :: "string list \<Rightarrow> cell list list \<Rightarrow> (nat \<times> row) list \<Rightarrow> (nat \<times> row) list" where
  "drop_dups cs seen [] = []"
| "drop_dups cs seen ((i, r) # xs) =
     (if map r cs \<in> set seen then drop_dups cs seen xs
      else (i, r) # drop_dups cs (map r cs # seen) xs)"

definition drop_duplicates :: "dataframe \<Rightarrow> dataframe" where
  "drop_duplicates df = df\<lparr>rows := drop_dups (columns df) [] (rows df)\<rparr>"

section \<open>Sample Selector (lines 53-76)\<close>

subsection \<open>Sample count from the identifier\<close>

definition is_digit :: "char \<Rightarrow> bool" where
  "is_digit c = (48 \<le> (of_char c :: nat) \<and> (of_char c :: nat) \<le> 57)"

definition digit_val :: "char \<Rightarrow> nat" where
  "digit_val c = (of_char c :: nat) - 48"

text \<open>
  The regular expression \<^verbatim>\<open>-(\d{2})$\<close>, read from the end of the string: a dash and
  two digits. The argument is the reversed text before the place where \<^verbatim>\<open>$\<close> matches.
\<close>

fun dash_two_digits :: "string \<Rightarrow> nat option" where
  "dash_two_digits (d2 # d1 # m # _) =
     (if m = CHR ''-'' \<and> is_digit d1 \<and> is_digit d2
      then Some (10 * digit_val d1 + digit_val d2) else None)"
| "dash_two_digits _ = None"

text \<open>
  \<^verbatim>\<open>$\<close> matches at the end of the string and before a newline that ends it. The
  integer is \<^verbatim>\<open>int\<close> of the two digits.
\<close>

definition extract_count :: "string \<Rightarrow> nat option" where
  "extract_count s =
     (case rev s of
        [] \<Rightarrow> None
      | c # t \<Rightarrow> (case dash_two_digits (c # t) of
                    Some n \<Rightarrow> Some n
                  | None \<Rightarrow> if c = CHR 0x0A then dash_two_digits t else None))"

text \<open>
  One cell of \<^verbatim>\<open>df['Site No.1'].str.extract(...).astype(int)\<close>: a cell that is no
  string, or a string that does not match, extracts to NaN, which \<^verbatim>\<open>astype(int)\<close>
  refuses.
\<close>

definition count_of_cell :: "cell \<Rightarrow> nat option" where
  "count_of_cell c = (case c of Str s \<Rightarrow> extract_count s | Flt _ \<Rightarrow> None)"

text \<open>
  Line 55. The \<^verbatim>\<open>.str\<close> accessor exists on object columns only.
\<close>

definition extract_sample_count :: "dataframe \<Rightarrow> error + dataframe" where
  "extract_sample_count df =
     (if dtypes df ''Site No.1'' \<noteq> Object then Inl AttributeError
      else
        let counts = map (\<lambda>(i, r). count_of_cell (r ''Site No.1'')) (rows df) in
        if None \<in> set counts then Inl ParseError
        else Inr (assign ''Sample Count'' Number
                    (map (\<lambda>n. Flt (Fin (of_nat (the n)))) counts) df))"

subsection \<open>Period labels\<close>

definition conditions :: "float64 \<Rightarrow> bool list" where
  "conditions year =
     [fle (Fin 1995) year \<and> fle year (Fin 2000),
      fle (Fin 2008) year \<and> fle year (Fin 2012),
      fle (Fin 2013) year \<and> fle year (Fin 2017),
      fle (Fin 2018) year \<and> fle year (Fin 2023)]"

definition period_labels :: "string list" where
  "period_labels = [''1995-2000'', ''2008-2012'', ''2013-2017'', ''2018-2023'']"

text \<open>\<^verbatim>\<open>np.select\<close> at one row: the choice of the first condition that holds.\<close>

fun np_select :: "bool list \<Rightarrow> 'a list \<Rightarrow> 'a \<Rightarrow> 'a" where
  "np_select (c # cs) (v # vs) d = (if c then v else np_select cs vs d)"
| "np_select _ _ d = d"

definition period_of :: "float64 \<Rightarrow> string" where
  "period_of year = np_select (conditions year) period_labels ''Unknown''"

text \<open>
  Lines 61-68. Comparing a string with an integer raises TypeError.
\<close>

definition add_period :: "dataframe \<Rightarrow> error + dataframe" where
  "add_period df =
     (if \<exists>(i, r) \<in> set (rows df). is_str (r ''Year'') then Inl TypeError
      else Inr (assign ''Period'' Object
                  (map (\<lambda>(i, r). Str (period_of (float_of (r ''Year'')))) (rows df)) df))"

subsection \<open>Latest sample of each site and period\<close>

text \<open>
  \<^verbatim>\<open>groupby\<close> leaves out a row with a null key and sorts the groups by key: numbers
  before strings, numbers by value, strings by code point.
\<close>

definition group_key :: "row \<Rightarrow> (cell \<times> cell) option" where
  "group_key r =
     (if isnull (r ''Site Num'') \<or> isnull (r ''Period'') then None
      else Some (r ''Site Num'', r ''Period''))"

fun sort_rank :: "cell \<Rightarrow> nat \<times> rat \<times> string" where
  "sort_rank (Flt NInf) = (0, 0, [])"
| "sort_rank (Flt (Fin q)) = (1, q, [])"
| "sort_rank (Flt PInf) = (2, 0, [])"
| "sort_rank (Flt NaN) = (3, 0, [])"
| "sort_rank (Str s) = (4, 0, s)"

definition group_keys :: "dataframe \<Rightarrow> (cell \<times> cell) list" where
  "group_keys df =
     sort_key (\<lambda>(s, p). (sort_rank s, sort_rank p))
       (remdups (List.map_filter (\<lambda>(i, r). group_key r) (rows df)))"

definition group_rows :: "dataframe \<Rightarrow> cell \<times> cell \<Rightarrow> (nat \<times> row) list" where
  "group_rows df k = filter (\<lambda>(i, r). group_key r = Some k) (rows df)"

text \<open>
  \<^verbatim>\<open>idxmax\<close> of one group: NaN is skipped, and of equal maxima the first wins. The
  result is the label and the value; None when the group has no value.
\<close>

fun idxmax :: "(nat \<times> float64) list \<Rightarrow> (nat \<times> float64) option" where
  "idxmax [] = None"
| "idxmax ((i, v) # xs) =
     (if v = NaN then idxmax xs
      else (case idxmax xs of
              None \<Rightarrow> Some (i, v)
            | Some (j, w) \<Rightarrow> if fle w v then Some (i, v) else Some (j, w)))"

text \<open>Line 74.\<close>

definition select_latest :: "dataframe \<Rightarrow> error + dataframe" where
  "select_latest df =
     (if ''Sample Count'' \<notin> set (columns df) then Inl (KeyError [''Sample Count''])
      else if dtypes df ''Sample Count'' \<noteq> Number then Inl TypeError
      else
        let picks = map (\<lambda>k. idxmax (map (\<lambda>(i, r). (i, float_of (r ''Sample Count'')))
                                       (group_rows df k)))
                      (group_keys df) in
        if None \<in> set picks then Inl ValueError
        else Inr (reset_index (loc df (map (\<lambda>p. fst (the p)) picks))))"

section \<open>Censored-Value Normalizer (lines 78-81)\<close>

text \<open>
  \<^verbatim>\<open>astype(str)\<close> of a float64 value has no \<^verbatim>\<open><\<close>, so only a string cell can
  make \<^verbatim>\<open>str.contains('<')\<close> true.
\<close>

definition contains_lt :: "cell \<Rightarrow> bool" where
  "contains_lt c = (case c of Str s \<Rightarrow> CHR ''<'' \<in> set s | Flt _ \<Rightarrow> False)"

definition columns_with_less_than :: "dataframe \<Rightarrow> string list" where
  "columns_with_less_than df =
     filter (\<lambda>col. \<exists>(i, r) \<in> set (rows df). contains_lt (r col)) (columns df)"

definition halve :: "float64 \<Rightarrow> float64" where
  "halve v = (case v of Fin q \<Rightarrow> Fin (q / 2) | PInf \<Rightarrow> PInf | NInf \<Rightarrow> NInf | NaN \<Rightarrow> NaN)"

text \<open>\<^verbatim>\<open>isinstance(x, str) and x.startswith('<')\<close>\<close>

definition is_censored :: "cell \<Rightarrow> bool" where
  "is_censored x = (case x of Str s \<Rightarrow> (case s of [] \<Rightarrow> False | c # _ \<Rightarrow> c = CHR ''<'')
                    | Flt _ \<Rightarrow> False)"

definition text_of :: "cell \<Rightarrow> string" where
  "text_of x = (case x of Str s \<Rightarrow> s | Flt _ \<Rightarrow> [])"

text \<open>
  The lambda of line 81; \<^verbatim>\<open>x[1:]\<close> is the tail of the string. \<open>py_float\<close> is
  Python's built-in \<^verbatim>\<open>float\<close> on strings, None where it raises ValueError; it is a
  parameter of the model.
\<close>

definition censor :: "(string \<Rightarrow> float64 option) \<Rightarrow> cell \<Rightarrow> error + cell" where
  "censor py_float x =
     (if is_censored x
      then (case py_float (tl (text_of x)) of
              None \<Rightarrow> Inl ValueError
            | Some v \<Rightarrow> Inr (Flt (halve v)))
      else Inr x)"

text \<open>\<^verbatim>\<open>Series.apply\<close>: the cells in order; the first exception ends it.\<close>

fun apply_cells :: "('a \<Rightarrow> error + 'b) \<Rightarrow> 'a list \<Rightarrow> error + 'b list" where
  "apply_cells f [] = Inr []"
| "apply_cells f (x # xs) =
     (case f x of
        Inl e \<Rightarrow> Inl e
      | Inr y \<Rightarrow> (case apply_cells f xs of Inl e \<Rightarrow> Inl e | Inr ys \<Rightarrow> Inr (y # ys)))"

text \<open>The dtype pandas infers for the result of \<^verbatim>\<open>apply\<close>.\<close>

definition infer_dtype :: "cell list \<Rightarrow> dtype" where
  "infer_dtype vs = (if \<exists>v \<in> set vs. is_str v then Object else Number)"

definition replace_in_column :: "(string \<Rightarrow> float64 option) \<Rightarrow> string \<Rightarrow> dataframe \<Rightarrow> error + dataframe" where
  "replace_in_column py_float column df =
     (case apply_cells (censor py_float) (map (\<lambda>(i, r). r column) (rows df)) of
        Inl e \<Rightarrow> Inl e
      | Inr vs \<Rightarrow> Inr (assign column (infer_dtype vs) vs df))"

fun replace_in_columns :: "(string \<Rightarrow> float64 option) \<Rightarrow> string list \<Rightarrow> dataframe \<Rightarrow> error + dataframe" where
  "replace_in_columns py_float [] df = Inr df"
| "replace_in_columns py_float (column # cs) df =
     (case replace_in_column py_float column df of
        Inl e \<Rightarrow> Inl e
      | Inr df' \<Rightarrow> replace_in_columns py_float cs df')"

definition replace_less_than :: "(string \<Rightarrow> float64 option) \<Rightarrow> dataframe \<Rightarrow> error + dataframe" where
  "replace_less_than py_float df = replace_in_columns py_float (columns_with_less_than df) df"

text \<open>
  The decimal literals of \<^verbatim>\<open>float\<close>: an optional sign, digits, an optional point and
  digits, at least one digit. It stands for \<open>py_float\<close> in the examples.
\<close>

fun digits_value :: "nat \<Rightarrow> string \<Rightarrow> nat" where
  "digits_value acc [] = acc"
| "digits_value acc (c # cs) = digits_value (10 * acc + digit_val c) cs"

definition unsigned_decimal :: "string \<Rightarrow> rat option" where
  "unsigned_decimal s =
     (let ip = takeWhile is_digit s; rest = dropWhile is_digit s in
      case rest of
        [] \<Rightarrow> if ip = [] then None else Some (of_nat (digits_value 0 ip))
      | c # fp \<Rightarrow>
          if c = CHR ''.'' \<and> list_all is_digit fp \<and> (ip \<noteq> [] \<or> fp \<noteq> [])
          then Some (of_nat (digits_value 0 ip) + of_nat (digits_value 0 fp) / 10 ^ length fp)
          else None)"

definition decimal_float :: "string \<Rightarrow> float64 option" where
  "decimal_float s =
     (case s of
        [] \<Rightarrow> None
      | c # t \<Rightarrow>
          if c = CHR ''-'' then map_option (\<lambda>q. Fin (- q)) (unsigned_decimal t)
          else if c = CHR ''+'' then map_option Fin (unsigned_decimal t)
          else map_option Fin (unsigned_decimal s))"

section \<open>Imputation Engine and reattachment (lines 83-93)\<close>

definition non_predictive_columns :: "string list" where
  "non_predictive_columns = [''Site No.1'', ''Site Num'', ''Year'', ''Sample Count'', ''Period'']"

definition numerical_columns :: "dataframe \<Rightarrow> string list" where
  "numerical_columns df =
     filter (\<lambda>c. dtypes df c = Number)
       (filter (\<lambda>c. c \<notin> set non_predictive_columns) (columns df))"

text \<open>
  \<open>imputer\<close> is \<^verbatim>\<open>IterativeImputer(max_iter=10, random_state=0).fit_transform\<close> of
  scikit-learn, a parameter of the model: from the rows of the numeric block to the rows
  of the imputed block, or an exception. \<^verbatim>\<open>pd.DataFrame(imputed_data, columns=...)\<close>
  raises ValueError when the block has another width. \<^verbatim>\<open>df[non_predictive_columns]\<close>
  raises KeyError when one of the five names is not a column. \<^verbatim>\<open>pd.concat\<close> along
  axis 1 joins by label and fills with NaN.
\<close>

definition reattach :: "(float64 list list \<Rightarrow> error + float64 list list) \<Rightarrow> dataframe \<Rightarrow> error + dataframe" where
  "reattach imputer df =
     (let nc = numerical_columns df;
          block = map (\<lambda>(i, r). map (\<lambda>c. float_of (r c)) nc) (rows df) in
      case imputer block of
        Inl e \<Rightarrow> Inl e
      | Inr imputed_data \<Rightarrow>
          if \<exists>y \<in> set imputed_data. length y \<noteq> length nc then Inl ValueError
          else
            let absent = filter (\<lambda>c. c \<notin> set (columns df)) non_predictive_columns in
            if absent \<noteq> [] then Inl (KeyError absent)
            else
              let n = length (rows df); m = length imputed_data in
              Inr \<lparr>columns = non_predictive_columns @ nc,
                   dtypes = (\<lambda>c. if c \<in> set non_predictive_columns then dtypes df c else Number),
                   rows = map (\<lambda>i. (i, \<lambda>c.
                            if c \<in> set non_predictive_columns
                            then (if i < n then snd (rows df ! i) c else Flt NaN)
                            else (if i < m
                                  then (case map_of (zip nc (imputed_data ! i)) c of
                                          Some v \<Rightarrow> Flt v | None \<Rightarrow> Flt NaN)
                                  else Flt NaN)))
                          [0 ..< max n m]\<rparr>)"

section \<open>Contamination Index Calculator (lines 119-138)\<close>

definition native_means :: "(string \<times> rat) list" where
  "native_means =
     [(''As'', 62 / 10), (''Cd'', 375 / 1000), (''Cr'', 285 / 10), (''Cu'', 23),
      (''Ni'', 1795 / 100), (''Pb'', 33), (''Zn'', 945 / 10)]"

text \<open>
  \<^verbatim>\<open>round(2)\<close> of numpy: to the nearest multiple of 0.01, a tie to the even one.
\<close>

definition rint :: "rat \<Rightarrow> int" where
  "rint x =
     (let n = \<lfloor>x\<rfloor>; f = x - of_int n in
      if f < 1 / 2 then n
      else if 1 / 2 < f then n + 1
      else if even n then n else n + 1)"

definition round2 :: "rat \<Rightarrow> rat" where
  "round2 x = of_int (rint (x * 100)) / 100"

text \<open>
  Arithmetic on float64 values: division by a positive constant, rounding, addition.
  NaN and the infinities pass through division and rounding; the sum of opposite
  infinities is NaN.
\<close>

definition fdiv :: "float64 \<Rightarrow> rat \<Rightarrow> float64" where
  "fdiv v d = (case v of Fin q \<Rightarrow> Fin (q / d) | PInf \<Rightarrow> PInf | NInf \<Rightarrow> NInf | NaN \<Rightarrow> NaN)"

definition fround2 :: "float64 \<Rightarrow> float64" where
  "fround2 v = (case v of Fin q \<Rightarrow> Fin (round2 q) | PInf \<Rightarrow> PInf | NInf \<Rightarrow> NInf | NaN \<Rightarrow> NaN)"

fun fadd :: "float64 \<Rightarrow> float64 \<Rightarrow> float64" where
  "fadd NaN _ = NaN"
| "fadd _ NaN = NaN"
| "fadd (Fin a) (Fin b) = Fin (a + b)"
| "fadd PInf NInf = NaN"
| "fadd NInf PInf = NaN"
| "fadd PInf _ = PInf"
| "fadd _ PInf = PInf"
| "fadd NInf _ = NInf"
| "fadd _ NInf = NInf"

text \<open>
  \<^verbatim>\<open>mean(axis=1)\<close> at one row: pandas skips NaN and divides the sum of the other
  values by their number; a row of NaN only has the mean NaN.
\<close>

definition nanmean :: "float64 list \<Rightarrow> float64" where
  "nanmean xs =
     (let ys = filter (\<lambda>x. x \<noteq> NaN) xs in
      if ys = [] then NaN else fdiv (foldl fadd (Fin 0) ys) (of_nat (length ys)))"

text \<open>
  The loop of lines 124-125: one \<^verbatim>\<open>CI_\<close> column for each element in turn. A missing
  element column raises KeyError, a string in it TypeError.
\<close>

fun add_ci_columns :: "(string \<times> rat) list \<Rightarrow> dataframe \<Rightarrow> error + dataframe" where
  "add_ci_columns [] df = Inr df"
| "add_ci_columns ((element, mean_value) # rest) df =
     (if element \<notin> set (columns df) then Inl (KeyError [element])
      else if \<exists>(i, r) \<in> set (rows df). is_str (r element) then Inl TypeError
      else add_ci_columns rest
             (assign (''CI_'' @ element) Number
                (map (\<lambda>(i, r). Flt (fround2 (fdiv (float_of (r element)) mean_value))) (rows df))
                df))"

definition ci_columns :: "string list" where
  "ci_columns = map (\<lambda>(element, mean_value). ''CI_'' @ element) native_means"

definition classify_ici :: "float64 \<Rightarrow> string" where
  "classify_ici ici =
     (if fle ici (Fin 1) then ''Low Contamination''
      else if flt (Fin 1) ici \<and> fle ici (Fin 3) then ''Moderate Contamination''
      else ''High Contamination'')"

text \<open>Lines 124-138 on the final dataset.\<close>

definition add_contamination :: "dataframe \<Rightarrow> error + dataframe" where
  "add_contamination df_final =
     (case add_ci_columns native_means df_final of
        Inl e \<Rightarrow> Inl e
      | Inr d1 \<Rightarrow>
          let d2 = assign ''ICI'' Number
                     (map (\<lambda>(i, r). Flt (fround2 (nanmean (map (\<lambda>c. float_of (r c)) ci_columns))))
                        (rows d1)) d1
          in Inr (assign ''ICI_Class'' Object
                    (map (\<lambda>(i, r). Str (classify_ici (float_of (r ''ICI'')))) (rows d2)) d2))"

section \<open>The run (lines 31-138)\<close>

text \<open>
  A stage yields the warnings it shows and its result. \<open>then_stage\<close> runs the next
  stage on the result and stops at an exception, as the \<^verbatim>\<open>try\<close> block does.
\<close>

type_synonym 'a outcome = "string list \<times> (error + 'a)"

definition then_stage :: "'a outcome \<Rightarrow> ('a \<Rightarrow> 'b outcome) \<Rightarrow> 'b outcome" where
  "then_stage m f =
     (case m of
        (w, Inl e) \<Rightarrow> (w, Inl e)
      | (w, Inr x) \<Rightarrow> (case f x of (w', y) \<Rightarrow> (w @ w', y)))"

definition sample_count_stage :: "dataframe \<Rightarrow> dataframe outcome" where
  "sample_count_stage df =
     (if ''Site No.1'' \<in> set (columns df) then ([], extract_sample_count df)
      else ([''Column 'Site No.1' is missing. Sample count extraction skipped.''], Inr df))"

definition period_stage :: "dataframe \<Rightarrow> dataframe outcome" where
  "period_stage df =
     (if ''Year'' \<in> set (columns df) then ([], add_period df)
      else ([''Column 'Year' is missing. Period assignment skipped.''], Inr df))"

definition latest_stage :: "dataframe \<Rightarrow> dataframe outcome" where
  "latest_stage df =
     (if ''Site Num'' \<in> set (columns df) \<and> ''Period'' \<in> set (columns df)
      then ([], select_latest df)
      else ([''Columns 'Site Num' or 'Period' are missing. Filtering latest samples skipped.''],
            Inr df))"

text \<open>
  \<open>button\<close> is the state of the "Remove Duplicates" button. The plots and the
  Kolmogorov-Smirnov table of lines 95-117 only report and are left out. The result is
  the frame that line 146 writes to the download.
\<close>

definition pipeline ::
  "bool \<Rightarrow> (string \<Rightarrow> float64 option) \<Rightarrow> (float64 list list \<Rightarrow> error + float64 list list)
     \<Rightarrow> dataframe \<Rightarrow> dataframe outcome" where
  "pipeline button py_float imputer df =
     then_stage (then_stage (then_stage (then_stage (then_stage (then_stage (then_stage (then_stage
       ([], validate df)
       (\<lambda>d. ([], dropna critical_columns d)))
       (\<lambda>d. ([], Inr (if button then drop_duplicates d else d))))
       sample_count_stage)
       period_stage)
       latest_stage)
       (\<lambda>d. ([], replace_less_than py_float d)))
       (\<lambda>d. ([], reattach imputer d)))
       (\<lambda>d. ([], add_contamination d))"

section \<open>Notions of the proofs\<close>

text \<open>The cells of a column, top to bottom.\<close>

definition cells_of :: "dataframe \<Rightarrow> string \<Rightarrow> cell list" where
  "cells_of df c = map (\<lambda>x. snd x c) (rows df)"

text \<open>A cell on which line 81 does not raise, and what line 81 leaves in it.\<close>

definition parses :: "(string \<Rightarrow> float64 option) \<Rightarrow> cell \<Rightarrow> bool" where
  "parses pf x = (is_censored x \<longrightarrow> pf (tl (text_of x)) \<noteq> None)"

definition half_limit :: "(string \<Rightarrow> float64 option) \<Rightarrow> cell \<Rightarrow> cell" where
  "half_limit pf x = (if is_censored x then Flt (halve (the (pf (tl (text_of x))))) else x)"

text \<open>
  The Sample Count of a row, and the row of a group that \<^verbatim>\<open>idxmax\<close> names: every
  row before it in the group has a smaller count, no row after it has a larger one.
\<close>

definition sample_count :: "nat \<times> row \<Rightarrow> float64" where
  "sample_count x = float_of (snd x ''Sample Count'')"

definition latest_in :: "(nat \<times> row) list \<Rightarrow> row \<Rightarrow> bool" where
  "latest_in g r =
     (\<exists>i pre post. g = pre @ (i, r) # post
        \<and> list_all (\<lambda>y. flt (sample_count y) (sample_count (i, r))) pre
        \<and> list_all (\<lambda>y. fle (sample_count y) (sample_count (i, r))) post)"

text \<open>
  The rational in a cell that holds a finite number, and what the loop of lines 124-125
  does to one row.
\<close>

definition fin_of :: "cell \<Rightarrow> rat" where
  "fin_of c = (case c of Flt (Fin q) \<Rightarrow> q | _ \<Rightarrow> 0)"

definition is_fin :: "cell \<Rightarrow> bool" where
  "is_fin c = (case c of Flt (Fin q) \<Rightarrow> True | _ \<Rightarrow> False)"

fun ci_row :: "(string \<times> rat) list \<Rightarrow> row \<Rightarrow> row" where
  "ci_row [] r = r"
| "ci_row ((element, mean_value) # rest) r =
     ci_row rest (r(''CI_'' @ element := Flt (fround2 (fdiv (float_of (r element)) mean_value))))"

section \<open>Example inputs\<close>

text \<open>A row from its cells; a column it does not list is empty.\<close>

definition row_of :: "(string \<times> cell) list \<Rightarrow> row" where
  "row_of kv = (\<lambda>c. case map_of kv c of Some v \<Rightarrow> v | None \<Rightarrow> Flt NaN)"

definition year_frame :: dataframe where
  "year_frame = \<lparr>columns = [''Year''], dtypes = (\<lambda>c. Number),
      rows = [(0, row_of [(''Year'', Flt (Fin 2000))]), (1, row_of [(''Year'', Flt (Fin 2001))])]\<rparr>"

definition ph_frame :: dataframe where
  "ph_frame = \<lparr>columns = critical_columns, dtypes = (\<lambda>c. Number),
      rows = [(0, (\<lambda>c. Flt (Fin 1))), (1, (\<lambda>c. if c = ''pH'' then Flt NaN else Flt (Fin 1))),
              (2, (\<lambda>c. Flt (Fin 2)))]\<rparr>"

definition censored_frame :: dataframe where
  "censored_frame = \<lparr>columns = [''As'', ''Cd''], dtypes = (\<lambda>c. if c = ''As'' then Object else Number),
      rows = [(0, row_of [(''As'', Str ''<0.2''), (''Cd'', Flt (Fin 3))]),
              (1, row_of [(''As'', Str ''0.5''), (''Cd'', Flt (Fin 4))])]\<rparr>"

text \<open>Two groups; the larger has its greatest count twice.\<close>

definition grouped_frame :: dataframe where
  "grouped_frame =
     \<lparr>columns = [''Site Num'', ''Period'', ''Sample Count'', ''pH''],
      dtypes = (\<lambda>c. if c = ''Period'' then Object else Number),
      rows = [(0, row_of [(''Site Num'', Flt (Fin 7)), (''Period'', Str ''2008-2012''),
                          (''Sample Count'', Flt (Fin 1)), (''pH'', Flt (Fin 4))]),
              (2, row_of [(''Site Num'', Flt (Fin 7)), (''Period'', Str ''2008-2012''),
                          (''Sample Count'', Flt (Fin 3)), (''pH'', Flt (Fin 5))]),
              (3, row_of [(''Site Num'', Flt (Fin 5)), (''Period'', Str ''Unknown''),
                          (''Sample Count'', Flt (Fin 2)), (''pH'', Flt (Fin 6))]),
              (5, row_of [(''Site Num'', Flt (Fin 7)), (''Period'', Str ''2008-2012''),
                          (''Sample Count'', Flt (Fin 3)), (''pH'', Flt (Fin 7))])]\<rparr>"

text \<open>
  A final dataset: the element values of the first row are the baseline means, those
  of the second are 3.01 times the baseline means.
\<close>

definition final_frame :: dataframe where
  "final_frame =
     \<lparr>columns = [''Site No.1'', ''As'', ''Cd'', ''Cr'', ''Cu'', ''Ni'', ''Pb'', ''Zn''],
      dtypes = (\<lambda>c. if c = ''Site No.1'' then Object else Number),
      rows = [(0, row_of [(''Site No.1'', Str ''A-01''), (''As'', Flt (Fin (62 / 10))),
                          (''Cd'', Flt (Fin (375 / 1000))), (''Cr'', Flt (Fin (285 / 10))),
                          (''Cu'', Flt (Fin 23)), (''Ni'', Flt (Fin (1795 / 100))),
                          (''Pb'', Flt (Fin 33)), (''Zn'', Flt (Fin (945 / 10)))]),
              (1, row_of [(''Site No.1'', Str ''B-01''), (''As'', Flt (Fin (18662 / 1000))),
                          (''Cd'', Flt (Fin (112875 / 100000))), (''Cr'', Flt (Fin (85785 / 1000))),
                          (''Cu'', Flt (Fin (6923 / 100))), (''Ni'', Flt (Fin (540295 / 10000))),
                          (''Pb'', Flt (Fin (9933 / 100))), (''Zn'', Flt (Fin (284445 / 1000)))])]\<rparr>"

text \<open>Cells of a row with the six critical columns measured, and with the elements.\<close>

definition measured :: "(string \<times> cell) list" where
  "measured = map (\<lambda>c. (c, Flt (Fin 1))) critical_columns"

definition at_baseline :: "(string \<times> cell) list" where
  "at_baseline = map (\<lambda>(element, mean_value). (element, Flt (Fin mean_value))) native_means"

text \<open>One row with every column the script reads but Year.\<close>

definition no_year_frame :: dataframe where
  "no_year_frame =
     \<lparr>columns = critical_columns @ [''Site No.1'', ''Site Num''] @ map fst native_means,
      dtypes = (\<lambda>c. if c = ''Site No.1'' then Object else Number),
      rows = [(0, row_of (measured @ at_baseline
                 @ [(''Site No.1'', Str ''A-01''), (''Site Num'', Flt (Fin 1))]))]\<rparr>"

text \<open>
  Three rows with every column the script reads. The second has no pH and the
  identifier \<^verbatim>\<open>A1\<close>; the element values of the third are twice the baselines.
\<close>

definition measured_twice :: "(string \<times> cell) list" where
  "measured_twice = map (\<lambda>c. (c, Flt (Fin 2))) critical_columns"

definition at_twice_baseline :: "(string \<times> cell) list" where
  "at_twice_baseline =
     map (\<lambda>(element, mean_value). (element, Flt (Fin (2 * mean_value)))) native_means"

definition skipped_frame :: dataframe where
  "skipped_frame =
     \<lparr>columns = critical_columns @ [''Site No.1'', ''Site Num'', ''Year''] @ map fst native_means,
      dtypes = (\<lambda>c. if c = ''Site No.1'' then Object else Number),
      rows = [(0, row_of (measured @ at_baseline
                 @ [(''Site No.1'', Str ''A-01''), (''Site Num'', Flt (Fin 1)),
                    (''Year'', Flt (Fin 2000))])),
              (1, row_of (tl measured @ at_baseline
                 @ [(''Site No.1'', Str ''A1''), (''Site Num'', Flt (Fin 1)),
                    (''Year'', Flt (Fin 2000))])),
              (2, row_of (measured_twice @ at_twice_baseline
                 @ [(''Site No.1'', Str ''B-02''), (''Site Num'', Flt (Fin 2)),
                    (''Year'', Flt (Fin 2010))]))]\<rparr>"

definition bad_row_frame :: dataframe where
  "bad_row_frame =
     \<lparr>columns = critical_columns @ [''Site No.1'', ''Site Num'', ''Year''],
      dtypes = (\<lambda>c. if c = ''Site No.1'' then Object else Number),
      rows = [(0, row_of (measured @ [(''Site No.1'', Str ''A-01''), (''Site Num'', Flt (Fin 1)),
                                       (''Year'', Flt (Fin 2000))])),
              (1, row_of (measured @ [(''Site No.1'', Str ''A1''), (''Site Num'', Flt (Fin 1)),
                                       (''Year'', Flt (Fin 2000))]))]\<rparr>"

section \<open>Properties\<close>

subsection \<open>Column assignment\<close>

lemma fle_Fin [simp]:
  "fle (Fin a) x = (case x of Fin b \<Rightarrow> a \<le> b | PInf \<Rightarrow> True | _ \<Rightarrow> False)"
  by (cases x) simp_all

lemma zip_assign_fst:
  "length xs = length vs \<Longrightarrow> map fst (map (\<lambda>((i, r), v). (i, r(c := v))) (zip xs vs)) = map fst xs"
  by (induction xs vs rule: list_induct2) auto

lemma zip_assign_col:
  "length xs = length vs \<Longrightarrow>
   map (\<lambda>x. snd x c) (map (\<lambda>((i, r), v). (i, r(c := v))) (zip xs vs)) = vs"
  by (induction xs vs rule: list_induct2) auto

lemma zip_assign_other:
  "length xs = length vs \<Longrightarrow> c' \<noteq> c \<Longrightarrow>
   map (\<lambda>x. snd x c') (map (\<lambda>((i, r), v). (i, r(c := v))) (zip xs vs)) = map (\<lambda>x. snd x c') xs"
  by (induction xs vs rule: list_induct2) auto

lemma assign_fst:
  "length vs = length (rows df) \<Longrightarrow> map fst (rows (assign c t vs df)) = map fst (rows df)"
  using zip_assign_fst [of "rows df" vs c] by (simp add: assign_def)

lemma assign_col:
  "length vs = length (rows df) \<Longrightarrow> map (\<lambda>x. snd x c) (rows (assign c t vs df)) = vs"
  using zip_assign_col [of "rows df" vs c] by (simp add: assign_def)

lemma assign_other:
  "length vs = length (rows df) \<Longrightarrow> c' \<noteq> c \<Longrightarrow>
   map (\<lambda>x. snd x c') (rows (assign c t vs df)) = map (\<lambda>x. snd x c') (rows df)"
  using zip_assign_other [of "rows df" vs c' c] by (simp add: assign_def)

subsection \<open>Schema Validator\<close>

lemma set_missing_critical:
  "set (missing_critical df) = set critical_columns - set (columns df)"
  by (auto simp: missing_critical_def)

lemma distinct_critical_columns: "distinct critical_columns"
  by (simp add: critical_columns_def)

text \<open>
  C6. When the dataset lacks a critical column, the run ends at the validator with one
  error that lists the missing critical columns, all of them and no other, each once
  and in the order of the required list; no stage after it runs and there is no
  output frame.
\<close>

theorem schema_error_halts:
  assumes "\<not> set critical_columns \<subseteq> set (columns df)"
  shows "\<exists>missing. pipeline button py_float imputer df = ([], Inl (SchemaError missing))
           \<and> missing \<noteq> [] \<and> distinct missing
           \<and> set missing = set critical_columns - set (columns df)
           \<and> missing = filter (\<lambda>c. c \<notin> set (columns df)) critical_columns"
proof -
  from assms have ne: "missing_critical df \<noteq> []"
    using set_missing_critical [of df] by auto
  then have "pipeline button py_float imputer df = ([], Inl (SchemaError (missing_critical df)))"
    by (simp add: pipeline_def validate_def then_stage_def)
  moreover have "distinct (missing_critical df)"
    using distinct_critical_columns by (simp add: missing_critical_def)
  ultimately show ?thesis
    using ne set_missing_critical [of df] by (simp add: missing_critical_def)
qed

theorem schema_error_halts_witness:
  "pipeline False decimal_float Inr (year_frame\<lparr>columns := [''pH'', ''AMN'', ''Year'']\<rparr>)
     = ([], Inl (SchemaError [''TC %'', ''TN %'', ''Olsen P'', ''BD'']))"
proof -
  have h: "\<not> set critical_columns
             \<subseteq> set (columns (year_frame\<lparr>columns := [''pH'', ''AMN'', ''Year'']\<rparr>))"
    by (simp add: critical_columns_def)
  show ?thesis
    using schema_error_halts [OF h, of False decimal_float Inr]
    by (auto simp: critical_columns_def)
qed

subsection \<open>Row Filter\<close>

text \<open>
  C7. On a dataset that has the critical columns, the Row Filter keeps exactly the rows
  with no null critical value, in order, so no retained row has a null in a critical
  column; the filter applied to its own output returns that output.
\<close>

theorem dropna_no_null_idempotent:
  assumes "set critical_columns \<subseteq> set (columns df)"
  shows "\<exists>df'. dropna critical_columns df = Inr df'
           \<and> columns df' = columns df
           \<and> list_all (\<lambda>x. list_all (\<lambda>c. \<not> isnull (snd x c)) critical_columns) (rows df')
           \<and> rows df' = filter (\<lambda>x. list_all (\<lambda>c. \<not> isnull (snd x c)) critical_columns) (rows df)
           \<and> dropna critical_columns df' = Inr df'"
proof -
  let ?keep = "\<lambda>(i, r). \<not> has_null critical_columns r"
  let ?df' = "df\<lparr>rows := filter ?keep (rows df)\<rparr>"
  have absent: "filter (\<lambda>c. c \<notin> set (columns df)) critical_columns = []"
    using assms by (auto simp: filter_empty_conv)
  have keep: "?keep = (\<lambda>x. list_all (\<lambda>c. \<not> isnull (snd x c)) critical_columns)"
    by (auto simp: has_null_def list_all_iff fun_eq_iff)
  have run: "dropna critical_columns df = Inr ?df'"
    using absent by (simp add: dropna_def)
  have again: "dropna critical_columns ?df' = Inr ?df'"
    using absent by (simp add: dropna_def)
  have clean: "list_all ?keep (filter ?keep (rows df))"
    by (simp add: list_all_iff)
  show ?thesis
    using run again clean by (simp add: keep)
qed

theorem dropna_no_null_idempotent_witness:
  "\<exists>df'. dropna critical_columns ph_frame = Inr df' \<and> map fst (rows df') = [0, 2]
     \<and> dropna critical_columns df' = Inr df'"
proof -
  have h: "set critical_columns \<subseteq> set (columns ph_frame)"
    by (simp add: ph_frame_def)
  show ?thesis
    using dropna_no_null_idempotent [OF h]
    by (auto simp: ph_frame_def critical_columns_def isnull_def)
qed

subsection \<open>Period labels\<close>

lemma period_of_Fin:
  "period_of (Fin q) =
     (if 1995 \<le> q \<and> q \<le> 2000 then ''1995-2000''
      else if 2008 \<le> q \<and> q \<le> 2012 then ''2008-2012''
      else if 2013 \<le> q \<and> q \<le> 2017 then ''2013-2017''
      else if 2018 \<le> q \<and> q \<le> 2023 then ''2018-2023''
      else ''Unknown'')"
  by (simp add: period_of_def conditions_def period_labels_def)

text \<open>
  C4. On a dataset whose Year cells are numbers or empty, every row gets the Period of
  its year: the label of the first of the four inclusive ranges 1995-2000, 2008-2012,
  2013-2017, 2018-2023 that holds the year, and "Unknown" when none does (an empty year
  included). The labels and the order of the rows stay. Year 2000 gives "1995-2000",
  year 2001 gives "Unknown".
\<close>

theorem period_assignment:
  assumes "list_all (\<lambda>x. \<not> is_str (snd x ''Year'')) (rows df)"
  shows "\<exists>df'. add_period df = Inr df'
           \<and> map fst (rows df') = map fst (rows df)
           \<and> map (\<lambda>x. snd x ''Period'') (rows df')
               = map (\<lambda>x. Str (period_of (float_of (snd x ''Year'')))) (rows df)
           \<and> (\<forall>q. period_of (Fin q) =
                 (if 1995 \<le> q \<and> q \<le> 2000 then ''1995-2000''
                  else if 2008 \<le> q \<and> q \<le> 2012 then ''2008-2012''
                  else if 2013 \<le> q \<and> q \<le> 2017 then ''2013-2017''
                  else if 2018 \<le> q \<and> q \<le> 2023 then ''2018-2023''
                  else ''Unknown''))
           \<and> period_of NaN = ''Unknown''
           \<and> period_of (Fin 2000) = ''1995-2000''
           \<and> period_of (Fin 2001) = ''Unknown''"
proof -
  let ?vs = "map (\<lambda>(i, r). Str (period_of (float_of (r ''Year'')))) (rows df)"
  have no_str: "\<not> (\<exists>(i, r) \<in> set (rows df). is_str (r ''Year''))"
    using assms by (auto simp: list_all_iff)
  then have run: "add_period df = Inr (assign ''Period'' Object ?vs df)"
    by (simp add: add_period_def)
  have len: "length ?vs = length (rows df)" by simp
  have vs: "?vs = map (\<lambda>x. Str (period_of (float_of (snd x ''Year'')))) (rows df)"
    by (simp add: case_prod_unfold)
  have nan: "period_of NaN = ''Unknown''"
    by (simp add: period_of_def conditions_def period_labels_def)
  show ?thesis
    using run assign_fst [OF len] assign_col [OF len] vs nan
    by (simp add: period_of_Fin)
qed

theorem period_assignment_witness:
  "\<exists>df'. add_period year_frame = Inr df'
      \<and> map fst (rows df') = [0, 1]
      \<and> map (\<lambda>x. snd x ''Period'') (rows df') = [Str ''1995-2000'', Str ''Unknown'']"
proof -
  have h: "list_all (\<lambda>x. \<not> is_str (snd x ''Year'')) (rows year_frame)"
    by (simp add: year_frame_def row_of_def is_str_def)
  show ?thesis
    using period_assignment [OF h]
    by (auto simp: year_frame_def row_of_def float_of_def period_of_Fin)
qed

subsection \<open>Classification\<close>

text \<open>
  C10. \<open>classify_ici\<close> is total on float64: every value, the infinities and NaN
  included, gets one of the three labels. A value for which both comparisons are false
  gets "High Contamination"; NaN is such a value.
\<close>

theorem classify_ici_total:
  "(classify_ici x = ''Low Contamination'' \<or> classify_ici x = ''Moderate Contamination''
      \<or> classify_ici x = ''High Contamination'')
   \<and> (\<not> fle x (Fin 1) \<and> \<not> (flt (Fin 1) x \<and> fle x (Fin 3))
        \<longrightarrow> classify_ici x = ''High Contamination'')
   \<and> \<not> fle NaN (Fin 1) \<and> \<not> (flt (Fin 1) NaN \<and> fle NaN (Fin 3))
   \<and> classify_ici NaN = ''High Contamination''"
  by (simp add: classify_ici_def)

theorem classify_ici_total_witness:
  "\<not> fle PInf (Fin 1) \<and> \<not> (flt (Fin 1) PInf \<and> fle PInf (Fin 3))
   \<and> classify_ici PInf = ''High Contamination''"
  using classify_ici_total [of PInf] by simp

subsection \<open>Contamination Index Calculator\<close>

lemma zip_map_self: "zip xs (map g xs) = map (\<lambda>x. (x, g x)) xs"
  by (induction xs) auto

lemma rows_assign_map:
  "rows (assign c t (map g (rows df)) df) = map (\<lambda>x. (fst x, (snd x)(c := g x))) (rows df)"
  by (simp add: assign_def zip_map_self case_prod_unfold)

lemma columns_assign_mono: "set (columns df) \<subseteq> set (columns (assign c t vs df))"
  by (auto simp: assign_def)

lemma add_ci_columns_rows:
  assumes "\<forall>p \<in> set ms. fst p \<in> set (columns df)"
    and "\<forall>x \<in> set (rows df). \<forall>p \<in> set ms. \<not> is_str (snd x (fst p))"
  shows "\<exists>d. add_ci_columns ms df = Inr d
           \<and> rows d = map (\<lambda>x. (fst x, ci_row ms (snd x))) (rows df)
           \<and> set (columns df) \<subseteq> set (columns d)"
  using assms
proof (induction ms arbitrary: df)
  case Nil
  then show ?case by simp
next
  case (Cons p ms)
  obtain e m where p: "p = (e, m)" by (cases p)
  let ?g = "\<lambda>x. Flt (fround2 (fdiv (float_of (snd x e)) m))"
  let ?d1 = "assign (''CI_'' @ e) Number (map ?g (rows df)) df"
  have g: "(\<lambda>(i, r). Flt (fround2 (fdiv (float_of (r e)) m))) = ?g"
    by (simp add: case_prod_unfold)
  have ein: "e \<in> set (columns df)" using Cons.prems(1) p by simp
  have nostr: "\<not> (\<exists>(i, r) \<in> set (rows df). is_str (r e))"
    using Cons.prems(2) p by fastforce
  have step: "add_ci_columns (p # ms) df = add_ci_columns ms ?d1"
    using ein nostr unfolding p by (simp add: g)
  have rows1: "rows ?d1 = map (\<lambda>x. (fst x, (snd x)(''CI_'' @ e := ?g x))) (rows df)"
    by (rule rows_assign_map)
  have cols1: "set (columns df) \<subseteq> set (columns ?d1)" by (rule columns_assign_mono)
  have a1: "\<forall>p \<in> set ms. fst p \<in> set (columns ?d1)"
    using Cons.prems(1) cols1 by auto
  have a2: "\<forall>x \<in> set (rows ?d1). \<forall>p \<in> set ms. \<not> is_str (snd x (fst p))"
    unfolding rows1 using Cons.prems(2) by (auto simp: is_str_def)
  from Cons.IH [OF a1 a2] obtain d where
    run: "add_ci_columns ms ?d1 = Inr d" and
    rows: "rows d = map (\<lambda>x. (fst x, ci_row ms (snd x))) (rows ?d1)" and
    cols: "set (columns ?d1) \<subseteq> set (columns d)"
    by blast
  have "rows d = map (\<lambda>x. (fst x, ci_row (p # ms) (snd x))) (rows df)"
    unfolding rows rows1 p by simp
  then show ?case using step run cols cols1 by auto
qed

lemma rint_near: "\<bar>of_int (rint x) - x\<bar> \<le> 1 / 2"
proof -
  have a: "of_int \<lfloor>x\<rfloor> \<le> x" and b: "x < of_int \<lfloor>x\<rfloor> + 1"
    by linarith+
  show ?thesis
    unfolding rint_def Let_def using a b by (auto simp: abs_le_iff)
qed

lemma rint_of_int [simp]: "rint (of_int k) = k"
  by (simp add: rint_def)

lemma round2_near: "\<bar>round2 x - x\<bar> \<le> 1 / 200"
proof -
  have "\<bar>of_int (rint (x * 100)) - x * 100\<bar> \<le> 1 / 2" by (rule rint_near)
  then have "\<bar>(of_int (rint (x * 100)) - x * 100) / 100\<bar> \<le> (1 / 2) / 100"
    by (simp add: abs_le_iff)
  then show ?thesis
    by (simp add: round2_def diff_divide_distrib)
qed

lemma round2_two_decimals: "\<exists>k::int. round2 x = of_int k / 100"
  by (auto simp: round2_def)

lemma round2_one [simp]: "round2 1 = 1"
proof -
  have "rint (of_int 100) = 100" by (rule rint_of_int)
  then show ?thesis by (simp add: round2_def)
qed

lemma classify_ici_Fin:
  "classify_ici (Fin q) =
     (if q \<le> 1 then ''Low Contamination''
      else if q \<le> 3 then ''Moderate Contamination'' else ''High Contamination'')"
  by (simp add: classify_ici_def)

lemma is_fin_cell: "is_fin c \<Longrightarrow> c = Flt (Fin (fin_of c))"
  by (auto simp: is_fin_def fin_of_def split: cell.splits float64.splits)

lemma is_fin_not_str: "is_fin c \<Longrightarrow> \<not> is_str c"
  by (auto simp: is_fin_def is_str_def split: cell.splits)

text \<open>The cells that lines 124-138 add to a row with finite element values.\<close>

lemma ci_row_native:
  assumes "list_all (\<lambda>p. is_fin (r (fst p))) native_means"
  shows "list_all (\<lambda>p. ci_row native_means r (''CI_'' @ fst p)
                     = Flt (Fin (round2 (fin_of (r (fst p)) / snd p)))) native_means"
proof -
  from assms have
    "r ''As'' = Flt (Fin (fin_of (r ''As'')))" "r ''Cd'' = Flt (Fin (fin_of (r ''Cd'')))"
    "r ''Cr'' = Flt (Fin (fin_of (r ''Cr'')))" "r ''Cu'' = Flt (Fin (fin_of (r ''Cu'')))"
    "r ''Ni'' = Flt (Fin (fin_of (r ''Ni'')))" "r ''Pb'' = Flt (Fin (fin_of (r ''Pb'')))"
    "r ''Zn'' = Flt (Fin (fin_of (r ''Zn'')))"
    by (simp_all add: native_means_def is_fin_cell)
  then obtain a1 a2 a3 a4 a5 a6 a7 where
    "r ''As'' = Flt (Fin a1)" "r ''Cd'' = Flt (Fin a2)" "r ''Cr'' = Flt (Fin a3)"
    "r ''Cu'' = Flt (Fin a4)" "r ''Ni'' = Flt (Fin a5)" "r ''Pb'' = Flt (Fin a6)"
    "r ''Zn'' = Flt (Fin a7)"
    by blast
  then show ?thesis
    by (simp add: native_means_def float_of_def fdiv_def fround2_def fin_of_def)
qed

lemma foldl_fadd_Fin:
  "foldl fadd (Fin a) (map (\<lambda>p. Fin (f p)) ps) = Fin (a + sum_list (map f ps))"
  by (induction ps arbitrary: a) (simp_all add: add.assoc)

lemma nanmean_Fin:
  "ps \<noteq> [] \<Longrightarrow>
   nanmean (map (\<lambda>p. Fin (f p)) ps) = Fin (sum_list (map f ps) / of_nat (length ps))"
  by (simp add: nanmean_def foldl_fadd_Fin fdiv_def filter_id_conv)

lemma nanmean_ci_row:
  assumes "list_all (\<lambda>p. is_fin (r (fst p))) native_means"
  shows "nanmean (map (\<lambda>c. float_of (ci_row native_means r c)) ci_columns)
           = Fin (sum_list (map (\<lambda>p. round2 (fin_of (r (fst p)) / snd p)) native_means) / 7)"
proof -
  from ci_row_native [OF assms]
  have "map (\<lambda>c. float_of (ci_row native_means r c)) ci_columns
          = map (\<lambda>p. Fin (round2 (fin_of (r (fst p)) / snd p))) native_means"
    by (simp add: ci_columns_def float_of_def list_all_iff case_prod_unfold)
  moreover have "native_means \<noteq> []" "length native_means = 7"
    by (simp_all add: native_means_def)
  ultimately show ?thesis
    using nanmean_Fin [of native_means "\<lambda>p. round2 (fin_of (r (fst p)) / snd p)"]
    by simp
qed

lemma list_all2_map_self:
  "list_all2 P xs (map h xs) = list_all (\<lambda>x. P x (h x)) xs"
  by (induction xs) auto


lemma rint_numeral [simp]: "rint (numeral n) = numeral n"
  by (simp add: rint_def)

lemma round2_hundredths: "round2 (of_int k / 100) = of_int k / 100"
  by (simp add: round2_def)


subsection \<open>Censored-Value Normalizer\<close>

lemma censor_unmarked: "\<not> is_censored x \<Longrightarrow> censor pf x = Inr x"
  by (simp add: censor_def)

lemma censor_marked:
  "is_censored x \<Longrightarrow> pf (tl (text_of x)) = Some v \<Longrightarrow> censor pf x = Inr (Flt (halve v))"
  by (simp add: censor_def)

lemma not_censored_Flt [simp]: "\<not> is_censored (Flt v)"
  by (simp add: is_censored_def)

lemma apply_cells_censor:
  "list_all (\<lambda>x. is_censored x \<longrightarrow> pf (tl (text_of x)) \<noteq> None) xs \<Longrightarrow>
   apply_cells (censor pf) xs
     = Inr (map (\<lambda>x. if is_censored x then Flt (halve (the (pf (tl (text_of x))))) else x) xs)"
  by (induction xs) (auto simp: censor_def)

lemma censored_contains_lt: "is_censored x \<Longrightarrow> contains_lt x"
  by (auto simp: is_censored_def contains_lt_def split: cell.splits list.splits)

lemma columns_assign_old: "c \<in> set (columns df) \<Longrightarrow> columns (assign c t vs df) = columns df"
  by (simp add: assign_def)


lemma apply_cells_half_limit:
  "list_all (parses pf) xs \<Longrightarrow> apply_cells (censor pf) xs = Inr (map (half_limit pf) xs)"
  by (induction xs) (auto simp: censor_def parses_def half_limit_def)

lemma half_limit_idem [simp]: "half_limit pf (half_limit pf x) = half_limit pf x"
  by (simp add: half_limit_def)

lemma parses_half_limit [simp]: "parses pf (half_limit pf x)"
  by (simp add: half_limit_def parses_def)

lemma cells_of_assign:
  "length vs = length (rows df) \<Longrightarrow>
   cells_of (assign c t vs df) c' = (if c' = c then vs else cells_of df c')"
  using assign_col [of vs df c t] assign_other [of vs df c' c t] by (simp add: cells_of_def)

lemma length_cells_of [simp]: "length (cells_of df c) = length (rows df)"
  by (simp add: cells_of_def)

lemma replace_in_column_ok:
  assumes "list_all (parses pf) (cells_of df c)"
  shows "replace_in_column pf c df
           = Inr (assign c (infer_dtype (map (half_limit pf) (cells_of df c)))
                    (map (half_limit pf) (cells_of df c)) df)"
proof -
  have "map (\<lambda>(i, r). r c) (rows df) = cells_of df c"
    by (simp add: cells_of_def case_prod_unfold)
  then show ?thesis
    using apply_cells_half_limit [OF assms] by (simp add: replace_in_column_def)
qed

lemma replace_in_columns_ok:
  assumes "set cs \<subseteq> set (columns df)"
    and "\<forall>c \<in> set (columns df). list_all (parses pf) (cells_of df c)"
  shows "\<exists>df'. replace_in_columns pf cs df = Inr df' \<and> columns df' = columns df
           \<and> map fst (rows df') = map fst (rows df)
           \<and> (\<forall>c. cells_of df' c
                 = (if c \<in> set cs then map (half_limit pf) (cells_of df c) else cells_of df c))"
  using assms
proof (induction cs arbitrary: df)
  case Nil
  then show ?case by simp
next
  case (Cons c cs)
  let ?vs = "map (half_limit pf) (cells_of df c)"
  let ?d1 = "assign c (infer_dtype ?vs) ?vs df"
  have cin: "c \<in> set (columns df)" using Cons.prems(1) by simp
  have step: "replace_in_column pf c df = Inr ?d1"
    using Cons.prems(2) cin by (intro replace_in_column_ok) blast
  have len: "length ?vs = length (rows df)" by simp
  have cols1: "columns ?d1 = columns df" using cin by (rule columns_assign_old)
  have fst1: "map fst (rows ?d1) = map fst (rows df)" using len by (rule assign_fst)
  have view: "cells_of ?d1 c' = (if c' = c then ?vs else cells_of df c')" for c'
    using len by (rule cells_of_assign)
  have ok1: "\<forall>c' \<in> set (columns ?d1). list_all (parses pf) (cells_of ?d1 c')"
    unfolding cols1 view using Cons.prems(2) by (auto simp: list_all_iff)
  have sub1: "set cs \<subseteq> set (columns ?d1)" using Cons.prems(1) cols1 by simp
  from Cons.IH [OF sub1 ok1] obtain df' where
    run: "replace_in_columns pf cs ?d1 = Inr df'" and
    cols: "columns df' = columns ?d1" and
    labels: "map fst (rows df') = map fst (rows ?d1)" and
    cells: "\<And>c'. cells_of df' c'
              = (if c' \<in> set cs then map (half_limit pf) (cells_of ?d1 c') else cells_of ?d1 c')"
    by blast
  have final: "cells_of df' c'
        = (if c' \<in> set (c # cs) then map (half_limit pf) (cells_of df c') else cells_of df c')" for c'
    unfolding cells view by simp
  have "replace_in_columns pf (c # cs) df = Inr df'"
    using step run by simp
  then show ?case
    using cols cols1 labels fst1 final by simp
qed

lemma unmarked_column:
  assumes "c \<in> set (columns df)" "c \<notin> set (columns_with_less_than df)"
  shows "map (half_limit pf) (cells_of df c) = cells_of df c"
proof -
  have "\<not> contains_lt (snd x c)" if "x \<in> set (rows df)" for x
    using assms that by (auto simp: columns_with_less_than_def)
  then have "\<not> is_censored (snd x c)" if "x \<in> set (rows df)" for x
    using that censored_contains_lt by blast
  then show ?thesis
    by (simp add: cells_of_def half_limit_def map_idI)
qed

text \<open>
  C3, as amended. When \<^verbatim>\<open>float\<close> parses what follows the marker in every cell that
  begins with \<^verbatim>\<open><\<close>, the Normalizer returns a frame with the same columns and row
  labels in which each such cell holds half of that number, and every other cell of
  every column is the cell it was: a number stays the number, a string without the
  marker stays a string. \<^verbatim>\<open><0.2\<close> becomes 0.1.
\<close>

theorem replace_less_than_half_limit:
  assumes "list_all (\<lambda>x. list_all (\<lambda>c. is_censored (snd x c) \<longrightarrow> pf (tl (text_of (snd x c))) \<noteq> None)
                              (columns df)) (rows df)"
  shows "\<exists>df'. replace_less_than pf df = Inr df' \<and> columns df' = columns df
           \<and> map fst (rows df') = map fst (rows df)
           \<and> list_all (\<lambda>c. map (\<lambda>x. snd x c) (rows df')
                 = map (\<lambda>x. if is_censored (snd x c)
                             then Flt (halve (the (pf (tl (text_of (snd x c))))))
                             else snd x c) (rows df)) (columns df)
           \<and> censor decimal_float (Str ''<0.2'') = Inr (Flt (Fin (1 / 10)))"
proof -
  have ok: "\<forall>c \<in> set (columns df). list_all (parses pf) (cells_of df c)"
    using assms by (auto simp: list_all_iff parses_def cells_of_def)
  have sub: "set (columns_with_less_than df) \<subseteq> set (columns df)"
    by (auto simp: columns_with_less_than_def)
  from replace_in_columns_ok [OF sub ok] obtain df' where
    run: "replace_less_than pf df = Inr df'" and
    cols: "columns df' = columns df" and
    labels: "map fst (rows df') = map fst (rows df)" and
    cells: "\<And>c. cells_of df' c
              = (if c \<in> set (columns_with_less_than df)
                 then map (half_limit pf) (cells_of df c) else cells_of df c)"
    unfolding replace_less_than_def by blast
  have "cells_of df' c = map (half_limit pf) (cells_of df c)" if "c \<in> set (columns df)" for c
    using cells [of c] unmarked_column [OF that, of pf] by (cases "c \<in> set (columns_with_less_than df)") simp_all
  then have all: "list_all (\<lambda>c. map (\<lambda>x. snd x c) (rows df')
                 = map (\<lambda>x. if is_censored (snd x c)
                             then Flt (halve (the (pf (tl (text_of (snd x c))))))
                             else snd x c) (rows df)) (columns df)"
    by (simp add: list_all_iff cells_of_def half_limit_def)
  have ex: "censor decimal_float (Str ''<0.2'') = Inr (Flt (Fin (1 / 10)))"
    by (simp add: censor_def is_censored_def text_of_def decimal_float_def unsigned_decimal_def
        is_digit_def digit_val_def halve_def)
  show ?thesis using run cols labels all ex by blast
qed

theorem replace_less_than_half_limit_witness:
  "\<exists>df'. replace_less_than decimal_float censored_frame = Inr df'
      \<and> map (\<lambda>x. snd x ''As'') (rows df') = [Flt (Fin (1 / 10)), Str ''0.5'']
      \<and> map (\<lambda>x. snd x ''Cd'') (rows df') = [Flt (Fin 3), Flt (Fin 4)]"
proof -
  have p: "decimal_float ''0.2'' = Some (Fin (1 / 5))"
    by (simp add: decimal_float_def unsigned_decimal_def is_digit_def digit_val_def)
  have h: "list_all (\<lambda>x. list_all (\<lambda>c. is_censored (snd x c)
                \<longrightarrow> decimal_float (tl (text_of (snd x c))) \<noteq> None)
             (columns censored_frame)) (rows censored_frame)"
    using p by (simp add: censored_frame_def row_of_def is_censored_def text_of_def)
  from replace_less_than_half_limit [OF h] obtain df' where
    run: "replace_less_than decimal_float censored_frame = Inr df'" and
    cells: "list_all (\<lambda>c. map (\<lambda>x. snd x c) (rows df')
                 = map (\<lambda>x. if is_censored (snd x c)
                             then Flt (halve (the (decimal_float (tl (text_of (snd x c))))))
                             else snd x c) (rows censored_frame)) (columns censored_frame)"
    by blast
  have a: "map (\<lambda>x. snd x ''As'') (rows df') = [Flt (Fin (1 / 10)), Str ''0.5'']"
    and b: "map (\<lambda>x. snd x ''Cd'') (rows df') = [Flt (Fin 3), Flt (Fin 4)]"
    using cells p
    by (simp_all add: censored_frame_def row_of_def is_censored_def text_of_def halve_def)
  show ?thesis
    by (rule exI [of _ df']) (simp only: run a b simp_thms)
qed

text \<open>
  C3 as stated fails: in a column with the cells \<^verbatim>\<open><0.2\<close> and \<^verbatim>\<open>0.5\<close>, both
  strings, the second has no marker and stays the string \<^verbatim>\<open>0.5\<close>, although
  \<^verbatim>\<open>float\<close> reads it as 0.5; the column keeps the object dtype.
\<close>

theorem unmarked_string_not_coerced:
  "\<not> is_censored (Str ''0.5'') \<and> decimal_float ''0.5'' = Some (Fin (1 / 2))
   \<and> (\<exists>df'. replace_less_than decimal_float censored_frame = Inr df'
         \<and> map (\<lambda>x. snd x ''As'') (rows df') = [Flt (Fin (1 / 10)), Str ''0.5'']
         \<and> dtypes df' ''As'' = Object)"
  by (simp add: replace_less_than_def columns_with_less_than_def censored_frame_def row_of_def
      contains_lt_def replace_in_column_def censor_def is_censored_def text_of_def
      decimal_float_def unsigned_decimal_def is_digit_def digit_val_def halve_def assign_def
      infer_dtype_def is_str_def)

subsection \<open>Stages in sequence\<close>

lemma then_stage_Inl [simp]: "then_stage (w, Inl e) f = (w, Inl e)"
  by (simp add: then_stage_def)

lemma then_stage_Inr [simp]: "then_stage (w, Inr x) f = (w @ fst (f x), snd (f x))"
  by (simp add: then_stage_def split: prod.splits)

lemma drop_dups_keeps_cells:
  "x \<in> set xs \<Longrightarrow>
   map (snd x) cs \<in> set seen \<or> (\<exists>y \<in> set (drop_dups cs seen xs). map (snd y) cs = map (snd x) cs)"
proof (induction xs arbitrary: seen)
  case Nil
  then show ?case by simp
next
  case (Cons a xs)
  obtain i r where a: "a = (i, r)" by (cases a)
  show ?case
  proof (cases "x = a")
    case True
    then show ?thesis using a by auto
  next
    case False
    then have "x \<in> set xs" using Cons.prems by simp
    from Cons.IH [OF this, of seen] Cons.IH [OF this, of "map r cs # seen"]
    show ?thesis using a by auto
  qed
qed

lemma drop_duplicates_keeps_cell:
  assumes "x \<in> set (rows df)" "c \<in> set (columns df)"
  shows "\<exists>y \<in> set (rows (drop_duplicates df)). snd y c = snd x c"
proof -
  from drop_dups_keeps_cells [OF assms(1), of "columns df" "[]"]
  obtain y where y: "y \<in> set (drop_dups (columns df) [] (rows df))"
    and eq: "map (snd y) (columns df) = map (snd x) (columns df)" by auto
  from eq assms(2) have "snd y c = snd x c" by (simp add: map_eq_conv)
  with y show ?thesis by (auto simp: drop_duplicates_def)
qed

lemma extract_sample_count_bad:
  assumes "x \<in> set (rows df)" "count_of_cell (snd x ''Site No.1'') = None"
  shows "extract_sample_count df
           = Inl (if dtypes df ''Site No.1'' = Object then ParseError else AttributeError)"
proof -
  have "None \<in> set (map (\<lambda>(i, r). count_of_cell (r ''Site No.1'')) (rows df))"
    using assms by (force simp: case_prod_unfold)
  then show ?thesis by (simp add: extract_sample_count_def)
qed


lemmas frame_simps = critical_columns_def measured_def row_of_def isnull_def has_null_def
  count_of_cell_def extract_count_def is_digit_def digit_val_def



lemma then_stage_result:
  "snd (then_stage m f) = Inr y \<Longrightarrow> \<exists>x. snd m = Inr x \<and> snd (f x) = Inr y"
  by (cases m) (auto simp: then_stage_def split: sum.splits prod.splits)

lemma validate_result: "validate df = Inr d \<Longrightarrow> d = df"
  by (simp add: validate_def split: if_splits)

lemma dropna_columns: "dropna subs df = Inr d \<Longrightarrow> columns d = columns df"
  by (auto simp: dropna_def Let_def split: if_splits)

lemma set_columns_assign: "set (columns (assign c t vs df)) = insert c (set (columns df))"
  by (auto simp: assign_def)

lemma sample_count_stage_columns:
  "snd (sample_count_stage df) = Inr d \<Longrightarrow> set (columns d) \<subseteq> insert ''Sample Count'' (set (columns df))"
  by (auto simp: sample_count_stage_def extract_sample_count_def Let_def set_columns_assign
      split: if_splits)

lemma period_stage_columns:
  "snd (period_stage df) = Inr d \<Longrightarrow> set (columns d) \<subseteq> insert ''Period'' (set (columns df))"
  by (auto simp: period_stage_def add_period_def set_columns_assign split: if_splits)

lemma latest_stage_columns:
  "snd (latest_stage df) = Inr d \<Longrightarrow> columns d = columns df"
  by (auto simp: latest_stage_def select_latest_def Let_def reset_index_def loc_def
      split: if_splits)

lemma replace_in_columns_columns:
  "replace_in_columns pf cs df = Inr d \<Longrightarrow> set (columns d) \<subseteq> set (columns df) \<union> set cs"
proof (induction cs arbitrary: df)
  case Nil
  then show ?case by simp
next
  case (Cons c cs)
  from Cons.prems obtain d1 where
    1: "replace_in_column pf c df = Inr d1" and 2: "replace_in_columns pf cs d1 = Inr d"
    by (auto split: sum.splits)
  from 1 have "set (columns d1) = insert c (set (columns df))"
    by (auto simp: replace_in_column_def set_columns_assign split: sum.splits)
  with Cons.IH [OF 2] show ?case by auto
qed

lemma replace_less_than_columns:
  "replace_less_than pf df = Inr d \<Longrightarrow> set (columns d) \<subseteq> set (columns df)"
  using replace_in_columns_columns [of pf "columns_with_less_than df" df d]
  by (auto simp: replace_less_than_def columns_with_less_than_def)

lemma reattach_needs_columns:
  "reattach imputer df = Inr d \<Longrightarrow> set non_predictive_columns \<subseteq> set (columns df)"
  by (auto simp: reattach_def Let_def filter_empty_conv split: sum.splits if_splits)

lemma subset_chain:
  "A3 = A \<Longrightarrow> A4 \<subseteq> insert a A3 \<Longrightarrow> A5 \<subseteq> insert b A4 \<Longrightarrow> A6 = A5 \<Longrightarrow> A7 \<subseteq> A6
   \<Longrightarrow> N \<subseteq> A7 \<Longrightarrow> x \<in> N \<Longrightarrow> x \<noteq> a \<Longrightarrow> x \<noteq> b \<Longrightarrow> x \<in> A"
  by auto

lemma pipeline_output_needs_columns:
  assumes "snd (pipeline button pf imputer df) = Inr out"
  shows "{''Site No.1'', ''Site Num'', ''Year''} \<subseteq> set (columns df)"
proof -
  from then_stage_result [OF assms [unfolded pipeline_def]]
  obtain d8 where s8: "snd (then_stage (then_stage (then_stage (then_stage (then_stage (then_stage (then_stage
       ([], validate df)
       (\<lambda>d. ([], dropna critical_columns d)))
       (\<lambda>d. ([], Inr (if button then drop_duplicates d else d))))
       sample_count_stage)
       period_stage)
       latest_stage)
       (\<lambda>d. ([], replace_less_than pf d)))
       (\<lambda>d. ([], reattach imputer d))) = Inr d8"
    by blast
  from then_stage_result [OF s8]
  obtain d7 where s7: "snd (then_stage (then_stage (then_stage (then_stage (then_stage (then_stage
       ([], validate df)
       (\<lambda>d. ([], dropna critical_columns d)))
       (\<lambda>d. ([], Inr (if button then drop_duplicates d else d))))
       sample_count_stage)
       period_stage)
       latest_stage)
       (\<lambda>d. ([], replace_less_than pf d))) = Inr d7"
    and r: "snd ([]::string list, reattach imputer d7) = Inr d8"
    by blast
  from then_stage_result [OF s7]
  obtain d6 where s6: "snd (then_stage (then_stage (then_stage (then_stage (then_stage
       ([], validate df)
       (\<lambda>d. ([], dropna critical_columns d)))
       (\<lambda>d. ([], Inr (if button then drop_duplicates d else d))))
       sample_count_stage)
       period_stage)
       latest_stage) = Inr d6"
    and n: "snd ([]::string list, replace_less_than pf d6) = Inr d7"
    by blast
  from then_stage_result [OF s6]
  obtain d5 where s5: "snd (then_stage (then_stage (then_stage (then_stage
       ([], validate df)
       (\<lambda>d. ([], dropna critical_columns d)))
       (\<lambda>d. ([], Inr (if button then drop_duplicates d else d))))
       sample_count_stage)
       period_stage) = Inr d5"
    and l: "snd (latest_stage d5) = Inr d6"
    by blast
  from then_stage_result [OF s5]
  obtain d4 where s4: "snd (then_stage (then_stage (then_stage
       ([], validate df)
       (\<lambda>d. ([], dropna critical_columns d)))
       (\<lambda>d. ([], Inr (if button then drop_duplicates d else d))))
       sample_count_stage) = Inr d4"
    and p: "snd (period_stage d4) = Inr d5"
    by blast
  from then_stage_result [OF s4]
  obtain d3 where s3: "snd (then_stage (then_stage
       ([], validate df)
       (\<lambda>d. ([], dropna critical_columns d)))
       (\<lambda>d. ([], Inr (if button then drop_duplicates d else d)))) = Inr d3"
    and c: "snd (sample_count_stage d3) = Inr d4"
    by blast
  from then_stage_result [OF s3]
  obtain d2 where
    s2: "snd (then_stage ([], validate df) (\<lambda>d. ([], dropna critical_columns d))) = Inr d2"
    and u: "snd ([]::string list, Inr (if button then drop_duplicates d2 else d2) :: error + dataframe)
              = Inr d3"
    by blast
  from then_stage_result [OF s2]
  obtain d1 where v: "snd ([]::string list, validate df) = Inr d1"
    and f: "snd ([]::string list, dropna critical_columns d1) = Inr d2"
    by blast
  have v': "validate df = Inr d1" using v by (simp only: snd_conv)
  have f': "dropna critical_columns d1 = Inr d2" using f by (simp only: snd_conv)
  have u': "d3 = (if button then drop_duplicates d2 else d2)" using u by (simp only: snd_conv sum.inject)
  have n': "replace_less_than pf d6 = Inr d7" using n by (simp only: snd_conv)
  have r': "reattach imputer d7 = Inr d8" using r by (simp only: snd_conv)
  have c3: "set (columns d3) = set (columns df)"
    using validate_result [OF v'] dropna_columns [OF f'] u' by (simp add: drop_duplicates_def)
  have c6: "set (columns d6) = set (columns d5)"
    using latest_stage_columns [OF l] by simp
  note chain = subset_chain [OF c3 sample_count_stage_columns [OF c] period_stage_columns [OF p]
      c6 replace_less_than_columns [OF n'] reattach_needs_columns [OF r']]
  have "''Site No.1'' \<in> set (columns df)"
    by (rule chain) (simp_all add: non_predictive_columns_def)
  moreover have "''Site Num'' \<in> set (columns df)"
    by (rule chain) (simp_all add: non_predictive_columns_def)
  moreover have "''Year'' \<in> set (columns df)"
    by (rule chain) (simp_all add: non_predictive_columns_def)
  ultimately show ?thesis by simp
qed

lemma missing_optional_column_aborts:
  assumes "c \<in> {''Site No.1'', ''Site Num'', ''Year''}" "c \<notin> set (columns df)"
  shows "\<exists>e. snd (pipeline button pf imputer df) = Inl e"
proof (cases "snd (pipeline button pf imputer df)")
  case (Inl e)
  then show ?thesis by simp
next
  case (Inr out)
  from pipeline_output_needs_columns [OF this] assms show ?thesis by auto
qed

text \<open>
  C5 does not hold of the code. This dataset has the critical columns, Site No.1,
  Site Num and the seven element columns, and no Year column. The run shows the two warnings, skips the Period and the
  latest-sample stages, and then ends with KeyError at line 93, which selects the five
  non-predictive columns without \<^verbatim>\<open>errors='ignore'\<close>; there is no final frame.
  \<open>missing_optional_column_aborts\<close> above shows the same for every dataset that lacks
  Site No.1, Site Num or Year.
\<close>

theorem missing_year_aborts:
  "''Year'' \<notin> set (columns no_year_frame)
   \<and> pipeline False decimal_float Inr no_year_frame
      = ([''Column 'Year' is missing. Period assignment skipped.'',
          ''Columns 'Site Num' or 'Period' are missing. Filtering latest samples skipped.''],
         Inl (KeyError [''Year'', ''Period'']))"
  by (simp add: no_year_frame_def at_baseline_def native_means_def frame_simps pipeline_def
      validate_def missing_critical_def
      dropna_def sample_count_stage_def extract_sample_count_def assign_def
      period_stage_def latest_stage_def
      replace_less_than_def columns_with_less_than_def contains_lt_def
      reattach_def numerical_columns_def non_predictive_columns_def Let_def)

subsection \<open>Sample Selector\<close>

lemma idxmax_first_max:
  assumes "xs \<noteq> []" "\<forall>x \<in> set xs. \<exists>q. snd x = Fin q"
  shows "\<exists>pre i v post. idxmax xs = Some (i, v) \<and> xs = pre @ (i, v) # post
           \<and> (\<forall>y \<in> set pre. flt (snd y) v) \<and> (\<forall>y \<in> set post. fle (snd y) v)"
  using assms
proof (induction xs)
  case Nil
  then show ?case by simp
next
  case (Cons x xs)
  obtain i q where x: "x = (i, Fin q)" using Cons.prems(2) by (cases x) auto
  show ?case
  proof (cases "xs = []")
    case True
    then have "idxmax (x # xs) = Some (i, Fin q)" using x by simp
    then show ?thesis using True x by fastforce
  next
    case False
    from Cons.IH [OF False] Cons.prems(2) obtain pre j w post where
      m: "idxmax xs = Some (j, w)" and xs: "xs = pre @ (j, w) # post" and
      lo: "\<forall>y \<in> set pre. flt (snd y) w" and hi: "\<forall>y \<in> set post. fle (snd y) w"
      by auto
    obtain q' where w: "w = Fin q'" using Cons.prems(2) xs by fastforce
    have fin: "\<exists>p. snd y = Fin p" if "y \<in> set xs" for y using Cons.prems(2) that by simp
    show ?thesis
    proof (cases "q' \<le> q")
      case True
      then have r: "idxmax (x # xs) = Some (i, Fin q)" using x m w by simp
      have "fle (snd y) (Fin q)" if yin: "y \<in> set xs" for y
      proof -
        from fin [OF yin] obtain p where p: "snd y = Fin p" by blast
        consider "y \<in> set pre" | "y = (j, w)" | "y \<in> set post" using yin xs by auto
        then show ?thesis
        proof cases
          case 1 then show ?thesis using lo p w True by fastforce
        next
          case 2 then show ?thesis using w True by simp
        next
          case 3 then show ?thesis using hi p w True by fastforce
        qed
      qed
      then show ?thesis using r x by (intro exI [of _ "[]"]) auto
    next
      case False
      then have r: "idxmax (x # xs) = Some (j, w)" using x m w by simp
      have "x # xs = (x # pre) @ (j, w) # post" using xs by simp
      moreover have "\<forall>y \<in> set (x # pre). flt (snd y) w" using lo x w False by simp
      ultimately show ?thesis using r hi by blast
    qed
  qed
qed

lemma set_group_keys:
  "set (group_keys df) = {k. group_rows df k \<noteq> []}"
  by (auto simp: group_keys_def group_rows_def List.map_filter_def filter_empty_conv
      split: prod.splits) (force+)

lemma distinct_group_keys: "distinct (group_keys df)"
  by (simp add: group_keys_def)

lemma length_group_keys: "length (group_keys df) \<le> length (rows df)"
proof -
  have "length (group_keys df) \<le> length (List.map_filter (\<lambda>(i, r). group_key r) (rows df))"
    by (simp add: group_keys_def)
  also have "\<dots> \<le> length (rows df)" by (simp add: List.map_filter_def)
  finally show ?thesis .
qed

lemma loc_one_label:
  "distinct (map fst xs) \<Longrightarrow> x \<in> set xs \<Longrightarrow> filter (\<lambda>(i, r). i = fst x) xs = [x]"
proof (induction xs)
  case Nil
  then show ?case by simp
next
  case (Cons a xs)
  show ?case
  proof (cases "x = a")
    case True
    have "fst y \<noteq> fst a" if "y \<in> set xs" for y
      using Cons.prems(1) that by (metis distinct.simps(2) imageI list.simps(9) set_map)
    then have "\<forall>y \<in> set xs. \<not> (case y of (i, r) \<Rightarrow> i = fst a)"
      by (simp add: case_prod_unfold)
    then have "filter (\<lambda>(i, r). i = fst a) xs = []"
      by (simp only: filter_empty_conv)
    then show ?thesis using True by (simp add: case_prod_unfold)
  next
    case False
    then have "x \<in> set xs" using Cons.prems(2) by simp
    then have "fst a \<noteq> fst x" using Cons.prems(1) by force
    then show ?thesis using Cons.IH \<open>x \<in> set xs\<close> Cons.prems(1) by (simp add: case_prod_unfold)
  qed
qed

lemma group_pick:
  assumes "group_rows df k \<noteq> []"
    and "list_all (\<lambda>x. \<exists>q. snd x ''Sample Count'' = Flt (Fin q)) (rows df)"
  shows "\<exists>x \<in> set (group_rows df k).
           idxmax (map (\<lambda>(i, r). (i, float_of (r ''Sample Count''))) (group_rows df k))
             = Some (fst x, sample_count x)
           \<and> latest_in (group_rows df k) (snd x)"
proof -
  let ?g = "group_rows df k"
  let ?f = "\<lambda>x. (fst x, sample_count x)"
  have f: "(\<lambda>(i, r). (i, float_of (r ''Sample Count''))) = ?f"
    by (auto simp: sample_count_def fun_eq_iff)
  have sub: "set ?g \<subseteq> set (rows df)" by (auto simp: group_rows_def)
  have fin: "\<forall>y \<in> set (map ?f ?g). \<exists>q. snd y = Fin q"
    using assms(2) sub by (fastforce simp: list_all_iff sample_count_def float_of_def)
  have ne: "map ?f ?g \<noteq> []" using assms(1) by simp
  from idxmax_first_max [OF ne fin] obtain pre i v post where
    m: "idxmax (map ?f ?g) = Some (i, v)" and
    split: "map ?f ?g = pre @ (i, v) # post" and
    lo: "\<forall>y \<in> set pre. flt (snd y) v" and hi: "\<forall>y \<in> set post. fle (snd y) v"
    by blast
  from split obtain gp x gq where
    g: "?g = gp @ x # gq" and gp: "map ?f gp = pre" and x: "?f x = (i, v)" and gq: "map ?f gq = post"
    by (auto simp: map_eq_append_conv map_eq_Cons_conv)
  have xi: "fst x = i" and xv: "sample_count x = v" using x by simp_all
  have "list_all (\<lambda>y. flt (sample_count y) (sample_count x)) gp"
    using lo gp xv by (auto simp: list_all_iff)
  moreover have "list_all (\<lambda>y. fle (sample_count y) (sample_count x)) gq"
    using hi gq xv by (auto simp: list_all_iff)
  ultimately have "latest_in ?g (snd x)"
    unfolding latest_in_def using g
    by (intro exI [of _ "fst x"] exI [of _ gp] exI [of _ gq]) simp
  moreover have "x \<in> set ?g" using g by simp
  ultimately show ?thesis using m xi xv f by auto
qed

lemma picked_rows:
  assumes "distinct (map fst (rows df))"
    and "list_all (\<lambda>x. \<exists>q. snd x ''Sample Count'' = Flt (Fin q)) (rows df)"
    and "\<forall>k \<in> set ks. group_rows df k \<noteq> []"
  shows "None \<notin> set (map (\<lambda>k. idxmax (map (\<lambda>(i, r). (i, float_of (r ''Sample Count'')))
                                         (group_rows df k))) ks)
         \<and> list_all2 (\<lambda>k x. latest_in (group_rows df k) (snd x)) ks
             (concat (map (\<lambda>l. filter (\<lambda>(i, r). i = l) (rows df))
                (map (\<lambda>p. fst (the p))
                   (map (\<lambda>k. idxmax (map (\<lambda>(i, r). (i, float_of (r ''Sample Count'')))
                                         (group_rows df k))) ks))))"
  using assms(3)
proof (induction ks)
  case Nil
  then show ?case by simp
next
  case (Cons k ks)
  from group_pick [OF _ assms(2), of k] Cons.prems obtain x where
    xin: "x \<in> set (group_rows df k)" and
    m: "idxmax (map (\<lambda>(i, r). (i, float_of (r ''Sample Count''))) (group_rows df k))
          = Some (fst x, sample_count x)" and
    l: "latest_in (group_rows df k) (snd x)"
    by auto
  have "x \<in> set (rows df)" using xin by (simp add: group_rows_def)
  from loc_one_label [OF assms(1) this]
  have one: "filter (\<lambda>(i, r). i = fst x) (rows df) = [x]" .
  from Cons.IH Cons.prems show ?case
    by (simp add: m one l)
qed

lemma list_all2_reset:
  assumes "list_all2 (\<lambda>k x. R k (snd x)) ks xs"
  shows "list_all2 (\<lambda>k x. R k (snd x)) ks (zip [0 ..< length xs] (map snd xs))"
  using assms by (auto simp: list_all2_conv_all_nth)

lemma latest_in_group:
  assumes "latest_in (group_rows df k) r"
  shows "group_key r = Some k"
proof -
  from assms obtain i pre post where "group_rows df k = pre @ (i, r) # post"
    unfolding latest_in_def by blast
  then have "(i, r) \<in> set (group_rows df k)" by simp
  then show ?thesis by (simp add: group_rows_def)
qed

lemma keys_of_list_all2:
  "list_all2 (\<lambda>k x. group_key (snd x) = Some k) ks xs
   \<Longrightarrow> map (\<lambda>x. group_key (snd x)) xs = map Some ks"
  by (induction rule: list_all2_induct) auto

lemma extracted_counts:
  assumes "extract_sample_count df = Inr d"
  shows "''Sample Count'' \<in> set (columns d) \<and> dtypes d ''Sample Count'' = Number
         \<and> map fst (rows d) = map fst (rows df)
         \<and> list_all (\<lambda>x. \<exists>q. snd x ''Sample Count'' = Flt (Fin q)) (rows d)"
proof -
  let ?vs = "map (\<lambda>n. Flt (Fin (of_nat (the n))))
               (map (\<lambda>(i, r). count_of_cell (r ''Site No.1'')) (rows df))"
  from assms have d: "d = assign ''Sample Count'' Number ?vs df"
    by (simp add: extract_sample_count_def Let_def split: if_splits)
  have len: "length ?vs = length (rows df)" by simp
  have "map (\<lambda>x. snd x ''Sample Count'') (rows d) = ?vs"
    unfolding d using len by (rule assign_col)
  then have "list_all (\<lambda>c. \<exists>q. c = Flt (Fin q)) (map (\<lambda>x. snd x ''Sample Count'') (rows d))"
    by (simp add: list_all_iff)
  then have "list_all (\<lambda>x. \<exists>q. snd x ''Sample Count'' = Flt (Fin q)) (rows d)"
    by (simp add: list_all_iff)
  moreover have "map fst (rows d) = map fst (rows df)"
    unfolding d using len by (rule assign_fst)
  moreover have "''Sample Count'' \<in> set (columns d)" "dtypes d ''Sample Count'' = Number"
    unfolding d by (simp_all add: assign_def)
  ultimately show ?thesis by simp
qed

text \<open>
  C2. On a dataset with the Site Num, Period and Sample Count columns, whose sample
  counts are numbers (as the extraction leaves them) and whose index labels are
  distinct, the Sample Selector returns a frame with one row for each non-empty
  (site, period) group, in the order of the sorted keys, and no other row. The row of a
  group is a row of that group; every row before it in the group has a smaller Sample
  Count and every row after it has at most its Sample Count, so it has the maximum of
  the group and is the first row in the original order that has it. The output has at
  most as many rows as the input.
\<close>

theorem latest_sample_per_group:
  assumes "''Site Num'' \<in> set (columns df)" "''Period'' \<in> set (columns df)"
    and "''Sample Count'' \<in> set (columns df)" "dtypes df ''Sample Count'' = Number"
    and "list_all (\<lambda>x. \<exists>q. snd x ''Sample Count'' = Flt (Fin q)) (rows df)"
    and "distinct (map fst (rows df))"
  shows "\<exists>out. latest_stage df = ([], Inr out)
           \<and> distinct (group_keys df)
           \<and> set (group_keys df) = {k. group_rows df k \<noteq> []}
           \<and> map (\<lambda>x. group_key (snd x)) (rows out) = map Some (group_keys df)
           \<and> list_all2 (\<lambda>k x. \<exists>i pre post. group_rows df k = pre @ (i, snd x) # post
                  \<and> list_all (\<lambda>y. flt (sample_count y) (sample_count x)) pre
                  \<and> list_all (\<lambda>y. fle (sample_count y) (sample_count x)) post)
               (group_keys df) (rows out)
           \<and> length (rows out) \<le> length (rows df)"
proof -
  define picks where
    "picks = map (\<lambda>k. idxmax (map (\<lambda>(i, r). (i, float_of (r ''Sample Count''))) (group_rows df k)))
               (group_keys df)"
  define sel where
    "sel = concat (map (\<lambda>l. filter (\<lambda>(i, r). i = l) (rows df)) (map (\<lambda>p. fst (the p)) picks))"
  define out where "out = reset_index (loc df (map (\<lambda>p. fst (the p)) picks))"
  have ne: "\<forall>k \<in> set (group_keys df). group_rows df k \<noteq> []"
    by (simp add: set_group_keys)
  from picked_rows [OF assms(6) assms(5) ne]
  have some: "None \<notin> set picks"
    and sel: "list_all2 (\<lambda>k x. latest_in (group_rows df k) (snd x)) (group_keys df) sel"
    unfolding picks_def sel_def by blast+
  have run: "select_latest df = Inr out"
    using assms(3,4) some unfolding picks_def out_def by (simp add: select_latest_def Let_def)
  have rows_out: "rows out = zip [0 ..< length sel] (map snd sel)"
    unfolding out_def sel_def by (simp add: reset_index_def loc_def)
  have latest: "list_all2 (\<lambda>k x. latest_in (group_rows df k) (snd x)) (group_keys df) (rows out)"
    unfolding rows_out using sel by (rule list_all2_reset)
  have len: "length (rows out) = length (group_keys df)"
    using latest by (simp add: list_all2_lengthD)
  have "list_all2 (\<lambda>k x. group_key (snd x) = Some k) (group_keys df) (rows out)"
    using latest by (rule list_all2_mono) (rule latest_in_group)
  then have keys: "map (\<lambda>x. group_key (snd x)) (rows out) = map Some (group_keys df)"
    by (rule keys_of_list_all2)
  have first: "list_all2 (\<lambda>k x. \<exists>i pre post. group_rows df k = pre @ (i, snd x) # post
                  \<and> list_all (\<lambda>y. flt (sample_count y) (sample_count x)) pre
                  \<and> list_all (\<lambda>y. fle (sample_count y) (sample_count x)) post)
               (group_keys df) (rows out)"
    using latest by (rule list_all2_mono) (auto simp: latest_in_def sample_count_def)
  have stage: "latest_stage df = ([], Inr out)"
    using assms(1,2) run by (simp add: latest_stage_def)
  have le: "length (rows out) \<le> length (rows df)"
    using len length_group_keys [of df] by simp
  show ?thesis
    using stage distinct_group_keys [of df] set_group_keys [of df] keys first le
    by (intro exI [of _ out]) (simp only: simp_thms)
qed

theorem latest_sample_per_group_witness:
  "\<exists>out. latest_stage grouped_frame = ([], Inr out)
      \<and> map (\<lambda>x. group_key (snd x)) (rows out) = map Some (group_keys grouped_frame)
      \<and> group_keys grouped_frame
          = [(Flt (Fin 5), Str ''Unknown''), (Flt (Fin 7), Str ''2008-2012'')]
      \<and> map (\<lambda>x. snd x ''Sample Count'') (rows out) = [Flt (Fin 2), Flt (Fin 3)]
      \<and> map (\<lambda>x. snd x ''pH'') (rows out) = [Flt (Fin 6), Flt (Fin 5)]"
proof -
  have 1: "''Site Num'' \<in> set (columns grouped_frame)"
    and 2: "''Period'' \<in> set (columns grouped_frame)"
    and 3: "''Sample Count'' \<in> set (columns grouped_frame)"
    and 4: "dtypes grouped_frame ''Sample Count'' = Number"
    and 5: "list_all (\<lambda>x. \<exists>q. snd x ''Sample Count'' = Flt (Fin q)) (rows grouped_frame)"
    and 6: "distinct (map fst (rows grouped_frame))"
    by (simp_all add: grouped_frame_def row_of_def)
  from latest_sample_per_group [OF 1 2 3 4 5 6] obtain out where
    stage: "latest_stage grouped_frame = ([], Inr out)" and
    keys: "map (\<lambda>x. group_key (snd x)) (rows out) = map Some (group_keys grouped_frame)"
    by blast
  have gk: "group_keys grouped_frame
          = [(Flt (Fin 5), Str ''Unknown''), (Flt (Fin 7), Str ''2008-2012'')]"
    by (simp add: group_keys_def grouped_frame_def row_of_def group_key_def isnull_def
        List.map_filter_def)
  have eval: "\<exists>d. latest_stage grouped_frame = ([], Inr d)
      \<and> map (\<lambda>x. snd x ''Sample Count'') (rows d) = [Flt (Fin 2), Flt (Fin 3)]
      \<and> map (\<lambda>x. snd x ''pH'') (rows d) = [Flt (Fin 6), Flt (Fin 5)]"
    unfolding latest_stage_def select_latest_def gk
    by (simp add: grouped_frame_def row_of_def group_rows_def group_key_def isnull_def
        float_of_def loc_def reset_index_def Let_def)
  then obtain d where d: "latest_stage grouped_frame = ([], Inr d)"
    and sc: "map (\<lambda>x. snd x ''Sample Count'') (rows d) = [Flt (Fin 2), Flt (Fin 3)]"
    and ph: "map (\<lambda>x. snd x ''pH'') (rows d) = [Flt (Fin 6), Flt (Fin 5)]"
    by (elim exE conjE)
  from stage d have "d = out" by simp
  then show ?thesis
    using stage keys gk sc ph by (intro exI [of _ out]) (simp only: simp_thms)
qed

end
